theory Spec2Isabelle
  imports Main "HOL-Library.Word"
begin

section \<open>Arduino String operations used by the firmware\<close>

text \<open>
  The firmware is written against the Arduino \<open>String\<close> class. The operations it calls are
  written out here on \<open>string\<close> (a list of bytes): \<open>trim\<close>, \<open>equalsIgnoreCase\<close>,
  \<open>startsWith\<close>, \<open>substring\<close>, \<open>charAt\<close>, \<open>toInt\<close> and the numeric constructors.
\<close>

definition isspace :: "char \<Rightarrow> bool" where
  "isspace c = ((of_char c :: nat) = 32 \<or> (9 \<le> (of_char c :: nat) \<and> (of_char c :: nat) \<le> 13))"

definition isdigit :: "char \<Rightarrow> bool" where
  "isdigit c = (48 \<le> (of_char c :: nat) \<and> (of_char c :: nat) \<le> 57)"

definition tolower :: "char \<Rightarrow> char" where
  "tolower c =
     (case map_of (zip ''ABCDEFGHIJKLMNOPQRSTUVWXYZ'' ''abcdefghijklmnopqrstuvwxyz'') c of
        Some l \<Rightarrow> l
      | None \<Rightarrow> c)"

text \<open>\<open>String::trim\<close>: leading and trailing white space is removed.\<close>

definition trim :: "string \<Rightarrow> string" where
  "trim s = rev (dropWhile isspace (rev (dropWhile isspace s)))"

text \<open>\<open>String::equalsIgnoreCase\<close>: same length and the same bytes after \<open>tolower\<close>.\<close>

definition equalsIgnoreCase :: "string \<Rightarrow> string \<Rightarrow> bool" where
  "equalsIgnoreCase a b = (length a = length b \<and> map tolower a = map tolower b)"

definition startsWith :: "string \<Rightarrow> string \<Rightarrow> bool" where
  "startsWith s p = (take (length p) s = p)"

text \<open>\<open>String::substring(n)\<close>: the bytes from index \<open>n\<close> on; empty when \<open>n\<close> is past the end.\<close>

definition substring :: "string \<Rightarrow> nat \<Rightarrow> string" where
  "substring s n = drop n s"

text \<open>\<open>String::charAt\<close> answers the byte 0 for an index outside the string.\<close>

definition charAt :: "string \<Rightarrow> nat \<Rightarrow> char" where
  "charAt s i = (if i < length s then s ! i else CHR 0x00)"

definition digit_char :: "nat \<Rightarrow> char" where
  "digit_char d = ''0123456789'' ! (d mod 10)"

fun dec_digits :: "nat \<Rightarrow> string" where
  "dec_digits n =
     (if n < 10 then [digit_char n]
      else dec_digits (n div 10) @ [digit_char (n mod 10)])"

declare dec_digits.simps [simp del]

text \<open>\<open>String(int)\<close>: the decimal numeral, with a minus sign for a negative value.\<close>

definition String_int :: "int \<Rightarrow> string" where
  "String_int i = (if i < 0 then CHR ''-'' # dec_digits (nat (- i)) else dec_digits (nat i))"

text \<open>
  Modelled from the spec: the Arduino core's \<open>String(double, 3)\<close> is not part of the
  repository. \<open>String(clipTime / 1000.0, 3)\<close> is taken to be what the spec calls
  "seconds, 3 decimals": the whole seconds, a point, and the remaining milliseconds on
  three digits. The argument is the unsigned 32-bit millisecond count.
\<close>

definition String_seconds3 :: "32 word \<Rightarrow> string" where
  "String_seconds3 t =
     (let n = unat t; m = n mod 1000
      in dec_digits (n div 1000) @ ''.'' @
         [digit_char (m div 100), digit_char (m div 10), digit_char m])"

text \<open>
  \<open>String::toInt\<close> is \<open>atol\<close>: white space is skipped, an optional sign is read, then the
  longest run of decimal digits; anything after it is ignored and no digit at all gives 0.
  The value saturates at the bounds of a 32-bit \<open>long\<close>.
\<close>

fun digits_value :: "int \<Rightarrow> string \<Rightarrow> int" where
  "digits_value acc [] = acc"
| "digits_value acc (c # cs) =
     (if isdigit c then digits_value (acc * 10 + (int (of_char c) - 48)) cs else acc)"

definition toInt :: "string \<Rightarrow> int" where
  "toInt s =
     (let r = dropWhile isspace s;
          v = (case r of
                 [] \<Rightarrow> 0
               | c # cs \<Rightarrow>
                   if c = CHR ''-'' then - digits_value 0 cs
                   else if c = CHR ''+'' then digits_value 0 cs
                   else digits_value 0 r)
      in max (- 2147483648) (min 2147483647 v))"

section \<open>Storage and control channel\<close>

text \<open>
  SPIFFS is a flat store: a directory of files in listing order, each with the name
  \<open>file.name()\<close> answers and its content. The path of a file (\<open>file.path()\<close>, and the
  argument of \<open>SPIFFS.open\<close> and \<open>SPIFFS.remove\<close>) is \<open>/\<close> followed by its name.
\<close>

type_synonym spiffs = "(string \<times> string) list"

definition path_name :: "string \<Rightarrow> string option" where
  "path_name p =
     (case p of
        [] \<Rightarrow> None
      | c # n \<Rightarrow> if c = CHR ''/'' then Some n else None)"

definition file_path :: "string \<Rightarrow> string" where
  "file_path n = CHR ''/'' # n"

text \<open>\<open>SPIFFS.open(path, FILE_READ)\<close>: the content, or no handle when there is no such file.\<close>

definition spiffs_read :: "spiffs \<Rightarrow> string \<Rightarrow> string option" where
  "spiffs_read fs p = (case path_name p of None \<Rightarrow> None | Some n \<Rightarrow> map_of fs n)"

text \<open>Appending through a handle opened with \<open>FILE_APPEND\<close>: the file is created when absent.\<close>

definition spiffs_append :: "spiffs \<Rightarrow> string \<Rightarrow> string \<Rightarrow> spiffs" where
  "spiffs_append fs n txt =
     (case map_of fs n of
        None \<Rightarrow> fs @ [(n, txt)]
      | Some _ \<Rightarrow> map (\<lambda>(k, c). if k = n then (k, c @ txt) else (k, c)) fs)"

text \<open>\<open>SPIFFS.remove(path)\<close>: true when a file of that path was there.\<close>

definition spiffs_remove :: "spiffs \<Rightarrow> string \<Rightarrow> bool \<times> spiffs" where
  "spiffs_remove fs p =
     (case path_name p of
        None \<Rightarrow> (False, fs)
      | Some n \<Rightarrow> (map_of fs n \<noteq> None, filter (\<lambda>(k, c). k \<noteq> n) fs))"

text \<open>
  What the device does to the outside, in the order it does it: text on the control
  channel (\<open>Serial\<close>) and changes of the store.
\<close>

datatype effect =
    SerialPrint string
  | SerialPrintln string
  | SerialWrite char
  | StorageAppend string string
  | StorageRemove string

section \<open>The globals of the sketch\<close>

text \<open>
  \<open>unsigned long\<close> and \<open>int\<close> are 32 bits wide on the ESP32. \<open>currentTrackIndex\<close> is an
  \<open>int\<close>: it is kept as a word and read with \<open>sint\<close>, so \<open>currentTrackIndex++\<close> at the
  largest \<open>int\<close> wraps around. \<open>fileList\<close> is the array of 50 strings.
\<close>

record globals =
  timestampStart :: "32 word"
  lastButton :: string
  lastButtonTimestamp :: "32 word"
  holdLogged :: bool
  currentFileName :: string
  sessionActive :: bool
  awaitingSessionName :: bool
  irMode :: bool
  fileList :: "string list"
  fileCount :: int
  fileName :: string
  logFileBase :: string
  lastClipTime :: "32 word"
  currentTrackIndex :: "32 word"
  preferences :: "string \<rightharpoonup> string"
  storage :: spiffs
  trace :: "effect list"

definition println :: "globals \<Rightarrow> string \<Rightarrow> globals" where
  "println s l = s\<lparr>trace := trace s @ [SerialPrintln l]\<rparr>"

definition print :: "globals \<Rightarrow> string \<Rightarrow> globals" where
  "print s l = s\<lparr>trace := trace s @ [SerialPrint l]\<rparr>"

text \<open>
  The two sources differ in \<open>logCommand\<close> only by a guard; \<open>handleButtonPress\<close> selects
  its repeat test with \<open>#ifdef IRDATA_FLAGS_IS_REPEAT\<close>, a macro of the IR library.
\<close>

datatype source_file = MainCpp | Part000

datatype repeat_test = LibraryFlag | Heuristic

record build =
  source :: source_file
  repeat_by :: repeat_test

text \<open>
  One decoded frame, with what the environment answers while it is handled: the three
  readings of \<open>millis()\<close> (at the repeat test, in \<open>logCommand\<close>, at the final stamp) and
  whether \<open>SPIFFS.open(currentFileName, FILE_APPEND)\<close> yields a handle.
\<close>

record press =
  command :: "32 word"
  repeat_flag :: bool
  at_check :: "32 word"
  at_log :: "32 word"
  at_stamp :: "32 word"
  open_ok :: bool

section \<open>Logging a clip\<close>

definition writeToFile :: "globals \<Rightarrow> bool \<Rightarrow> string \<Rightarrow> globals" where
  "writeToFile s ok line =
     (if currentFileName s = [] then println s ''No active session file.''
      else
        (case (if ok then path_name (currentFileName s) else None) of
           Some n \<Rightarrow>
             s\<lparr>storage := spiffs_append (storage s) n (line @ [CHR 0x0D, CHR 0x0A]),
               trace := trace s @ [StorageAppend (currentFileName s) line]\<rparr>
         | None \<Rightarrow>
             println s (''Failed to open file for writing: '' @ currentFileName s)))"

definition commandStr :: "32 word \<Rightarrow> string \<Rightarrow> 32 word \<Rightarrow> string" where
  "commandStr track buttonName clipTime =
     ''app.project.activeSequence.videoTracks['' @ String_int (sint track) @
     ''].insertClip(\"'' @ buttonName @ ''.mp4\", '' @ String_seconds3 clipTime @ '');''"

definition logCommand :: "build \<Rightarrow> globals \<Rightarrow> bool \<Rightarrow> 32 word \<Rightarrow> string \<Rightarrow> globals" where
  "logCommand b s ok now buttonName =
     (let clipTime = now - timestampStart s;
          s1 = (if source b = Part000 \<or>
                   (buttonName \<noteq> ''power'' \<and> buttonName \<noteq> ''power_hold'')
                then s\<lparr>currentTrackIndex :=
                         (if clipTime - lastClipTime s < 1000
                          then currentTrackIndex s + 1 else 1),
                       lastClipTime := clipTime\<rparr>
                else s);
          line = commandStr (currentTrackIndex s1) buttonName clipTime
      in writeToFile (println s1 line) ok line)"

section \<open>Classifying a code and detecting a hold\<close>

definition classify :: "32 word \<Rightarrow> string" where
  "classify c =
     (if c = 25 then ''ok''
      else if c = 24 then ''right''
      else if c = 22 then ''down''
      else if c = 23 then ''left''
      else if c = 21 then ''up''
      else if c = 71 then ''home''
      else if c = 16 then ''settings''
      else if c = 72 then ''back''
      else if c = 50 then ''tv''
      else [])"

definition isRepeat :: "build \<Rightarrow> globals \<Rightarrow> press \<Rightarrow> bool" where
  "isRepeat b s p =
     (case repeat_by b of
        LibraryFlag \<Rightarrow> repeat_flag p
      | Heuristic \<Rightarrow>
          classify (command p) = lastButton s \<and> at_check p - lastButtonTimestamp s < 700)"

definition handleButtonPress :: "build \<Rightarrow> globals \<Rightarrow> press \<Rightarrow> globals" where
  "handleButtonPress b s p =
     (let buttonName = classify (command p) in
      if buttonName = [] then s
      else if isRepeat b s p then
        (if \<not> holdLogged s then
           (logCommand b (s\<lparr>holdLogged := True\<rparr>) (open_ok p) (at_log p) (buttonName @ ''_hold''))
             \<lparr>lastButton := buttonName @ ''_hold'', lastButtonTimestamp := at_stamp p\<rparr>
         else s)
      else
        (logCommand b (s\<lparr>holdLogged := False\<rparr>) (open_ok p) (at_log p) buttonName)
          \<lparr>lastButton := buttonName, lastButtonTimestamp := at_stamp p\<rparr>)"

section \<open>File management\<close>

definition printlns :: "globals \<Rightarrow> string list \<Rightarrow> globals" where
  "printlns s ls = foldl println s ls"

text \<open>\<open>SPIFFS.remove\<close> on the device's store; the answer is whether a file was removed.\<close>

definition remove_file :: "globals \<Rightarrow> string \<Rightarrow> bool \<times> globals" where
  "remove_file s p =
     (let r = spiffs_remove (storage s) p
      in (fst r, s\<lparr>storage := snd r,
                     trace := trace s @ (if fst r then [StorageRemove p] else [])\<rparr>))"

definition sendFileOverSerial :: "globals \<Rightarrow> string \<Rightarrow> globals" where
  "sendFileOverSerial s fileNameParam =
     (let s1 = println (print s ''Sending: '') fileNameParam in
      case spiffs_read (storage s1) fileNameParam of
        None \<Rightarrow> println s1 ''Failed to open file for reading''
      | Some content \<Rightarrow>
          println
            ((println s1 (''START_FILE_TRANSFER:'' @ fileNameParam))
               \<lparr>trace := trace (println s1 (''START_FILE_TRANSFER:'' @ fileNameParam)) @
                          map SerialWrite content\<rparr>)
            (CHR 0x0A # ''END_FILE_TRANSFER''))"

text \<open>
  The loop of \<open>listStoredFiles\<close> over the directory: at most 50 entries are recorded in
  the array \<open>fileList\<close>, each printed with its 1-based number.
\<close>

fun list_loop :: "globals \<Rightarrow> spiffs \<Rightarrow> globals" where
  "list_loop s [] = s"
| "list_loop s (f # rest) =
     (if fileCount s < 50 then
        list_loop
          ((print (s\<lparr>fileList := (fileList s)[nat (fileCount s) := file_path (fst f)]\<rparr>)
              (''['' @ String_int (fileCount s + 1) @ ''] '' @ file_path (fst f) @ [CHR 0x0A]))
             \<lparr>fileCount := fileCount s + 1\<rparr>)
          rest
      else s)"

definition listStoredFiles :: "globals \<Rightarrow> globals" where
  "listStoredFiles s =
     (let s1 = list_loop (s\<lparr>fileCount := 0\<rparr>) (storage s)
      in if fileCount s1 = 0 then println s1 ''No files found.'' else s1)"

text \<open>The loop of \<open>deleteAllFiles\<close> over the directory; the result of \<open>remove\<close> is not read.\<close>

fun delete_loop :: "globals \<Rightarrow> spiffs \<Rightarrow> globals" where
  "delete_loop s [] = s"
| "delete_loop s (f # rest) =
     delete_loop (snd (remove_file (s\<lparr>fileName := ''/'' @ fst f\<rparr>) (''/'' @ fst f))) rest"

definition deleteAllFiles :: "globals \<Rightarrow> globals" where
  "deleteAllFiles s =
     (println (delete_loop s (storage s)) ''All files deleted.'')\<lparr>fileName := []\<rparr>"

definition sendAllFilesOverSerial :: "globals \<Rightarrow> globals" where
  "sendAllFilesOverSerial s =
     (if fileCount s = 0 then println s ''No files to send.''
      else
        println
          (foldl sendFileOverSerial (println s ''START_ALL_FILE_TRANSFER'')
             (take (nat (fileCount s)) (fileList s)))
          ''END_ALL_FILE_TRANSFER'')"

text \<open>
  \<open>selectMode\<close> waits for one byte on the control channel. \<open>None\<close> stands for a byte that
  never arrives: the wait does not end and the call does not return.
\<close>

definition selectMode :: "globals \<Rightarrow> char option \<Rightarrow> globals option" where
  "selectMode s choice =
     (let s1 = printlns s
                 [[], ''========== MENU =========='', ''Select Mode:'',
                  ''1 - IR Mode (Record IR signals)'', ''2 - File Management Mode'',
                  ''Enter your choice:'']
      in case choice of
           None \<Rightarrow> None
         | Some c \<Rightarrow>
             if c = CHR ''1'' then Some (println (s1\<lparr>irMode := True\<rparr>) ''IR Mode selected.'')
             else if c = CHR ''2'' then
               Some (listStoredFiles
                 (printlns (s1\<lparr>irMode := False\<rparr>)
                    [''File Management Mode selected.'',
                     ''Current log file base is: '' @ logFileBase s1,
                     ''Available commands:'',
                     ''  list, delete, delete <num>, send <num>, send all, setbase <new_base>, menu'',
                     ''Type 'menu' to return to the main menu.'']))
             else Some ((println s1 ''Invalid selection. Defaulting to IR Mode.'')\<lparr>irMode := True\<rparr>))"

definition help_text :: "string list" where
  "help_text =
     [''Unknown command. Available commands:'',
      ''  list                 - List all stored files with numbers'',
      ''  delete               - Delete all stored files'',
      ''  delete <num>         - Delete a specific file by number'',
      ''  send <num>           - Send a specific file over Serial by number'',
      ''  send all             - Send all files over Serial'',
      ''  setbase <new_base>   - Change the log file base'',
      ''  menu                 - Exit File Management Mode and return to the main menu'']"

definition handleSerialCommand :: "globals \<Rightarrow> char option \<Rightarrow> string \<Rightarrow> globals option" where
  "handleSerialCommand s choice raw =
     (let command = trim raw in
      if command = ''menu'' then selectMode s choice
      else if startsWith command ''setbase '' then
        (let newBase = trim (substring command 8) in
         if length newBase > 0 then
           Some (println
             (s\<lparr>logFileBase := newBase,
                preferences := (preferences s)(''logBase'' \<mapsto> newBase)\<rparr>)
             (''Log file base changed to: '' @ newBase))
         else Some (println s ''Invalid base name.''))
      else if command = ''delete'' then Some (deleteAllFiles s)
      else if startsWith command ''delete '' then
        (let argument = trim (substring command 7);
             fileIndex = toInt argument in
         if fileIndex > 0 \<and> fileIndex \<le> fileCount s then
           (let fileToDelete = fileList s ! nat (fileIndex - 1);
                r = remove_file s fileToDelete
            in Some (listStoredFiles
                 (println (snd r)
                    ((if fst r then ''Deleted file: '' else ''Failed to delete file: '') @
                     fileToDelete))))
         else Some (println s ''Invalid file number.''))
      else if command = ''list'' then Some (listStoredFiles s)
      else if startsWith command ''send '' then
        (let argument = substring command 5 in
         if argument = ''all'' then Some (sendAllFilesOverSerial s)
         else
           (let fileIndex = toInt argument in
            if fileIndex > 0 \<and> fileIndex \<le> fileCount s then
              Some (sendFileOverSerial s (fileList s ! nat (fileIndex - 1)))
            else Some (println s ''Invalid file number.'')))
      else Some (printlns s help_text))"

section \<open>The session manager\<close>

text \<open>
  What one pass of \<open>loop\<close> finds outside the device: a pending line on the control
  channel, a decoded frame, the reading of \<open>millis()\<close> when a session starts, the answer
  to the keep-or-discard prompt (\<open>None\<close>: it never arrives, the wait does not end), the
  lines that arrive during the three seconds after a session, and the byte given to the
  menu.
\<close>

record poll =
  serial_line :: "string option"
  ir_frame :: "press option"
  now :: "32 word"
  decision :: "string option"
  grace_lines :: "string list"
  menu_choice :: "char option"

text \<open>\<open>SPIFFS.remove(currentFileName)\<close> at the end of a session, with its report.\<close>

definition remove_session_file :: "globals \<Rightarrow> globals" where
  "remove_session_file s =
     (let r = remove_file s (currentFileName s)
      in println (snd r) (if fst r then ''File deleted.'' else ''Error deleting file.''))"

text \<open>The wait of up to three seconds after a session: only the line \<open>menu\<close> ends it early.\<close>

fun grace_window :: "globals \<Rightarrow> string list \<Rightarrow> char option \<Rightarrow> globals option" where
  "grace_window s [] choice = Some s"
| "grace_window s (l # ls) choice =
     (if equalsIgnoreCase (trim l) ''menu'' then selectMode s choice
      else grace_window s ls choice)"

definition end_session :: "globals \<Rightarrow> poll \<Rightarrow> globals option" where
  "end_session s e =
     (let s1 = printlns s
                 [''Session ended: '' @ currentFileName s,
                  ''Do you want to save the recorded file? (y/n) or type 'menu' to return to main menu''];
          closing = (\<lambda>s2.
            grace_window
              (println (s2\<lparr>sessionActive := False, currentFileName := []\<rparr>)
                 ''Type 'menu' to return to main menu, or press Enter to start a new session.'')
              (grace_lines e) (menu_choice e))
      in case decision e of
           None \<Rightarrow> None
         | Some raw \<Rightarrow>
             (let d = trim raw in
              if equalsIgnoreCase d ''y'' then closing (println s1 ''File saved.'')
              else if equalsIgnoreCase d ''menu'' then
                selectMode ((remove_session_file s1)\<lparr>sessionActive := False, currentFileName := []\<rparr>)
                  (menu_choice e)
              else closing (remove_session_file s1)))"

definition start_session :: "globals \<Rightarrow> 32 word \<Rightarrow> string \<Rightarrow> globals" where
  "start_session s t input =
     (let input1 = (if charAt input 0 \<noteq> CHR ''/'' then ''/'' @ input else input);
          s1 = s\<lparr>currentFileName := input1 @ ''.txt'',
                 sessionActive := True,
                 awaitingSessionName := False,
                 timestampStart := t,
                 lastClipTime := 0,
                 currentTrackIndex := 1\<rparr>
      in println s1 (''Session started: '' @ currentFileName s1))"

text \<open>The prompt for a session name, printed once while no session is active.\<close>

definition prompt_for_name :: "globals \<Rightarrow> globals" where
  "prompt_for_name s =
     (if \<not> awaitingSessionName s then
        (println s ''Enter file name for new session (or type 'menu' to return to menu):'')
          \<lparr>awaitingSessionName := True\<rparr>
      else s)"

definition loop :: "build \<Rightarrow> globals \<Rightarrow> poll \<Rightarrow> globals option" where
  "loop b s e =
     (if irMode s then
        (if \<not> sessionActive s then
           (let s1 = prompt_for_name s
            in case serial_line e of
                 None \<Rightarrow> Some s1
               | Some raw \<Rightarrow>
                   (let input = trim raw in
                    if equalsIgnoreCase input ''menu'' then
                      selectMode (s1\<lparr>awaitingSessionName := False\<rparr>) (menu_choice e)
                    else Some (start_session s1 (now e) input)))
         else
           (case ir_frame e of
              None \<Rightarrow> Some s
            | Some p \<Rightarrow>
                if command p = 33 then end_session s e
                else Some (handleButtonPress b s p)))
      else
        (case serial_line e of
           None \<Rightarrow> Some s
         | Some raw \<Rightarrow> handleSerialCommand s (menu_choice e) raw))"

text \<open>The globals as the sketch initialises them, over the durable store and preferences.\<close>

definition power_on :: "spiffs \<Rightarrow> (string \<rightharpoonup> string) \<Rightarrow> globals" where
  "power_on fs prefs =
     \<lparr>timestampStart = 0, lastButton = [], lastButtonTimestamp = 0, holdLogged = False,
      currentFileName = [], sessionActive = False, awaitingSessionName = False,
      irMode = True, fileList = replicate 50 [], fileCount = 0, fileName = [],
      logFileBase = ''/premiere_log'', lastClipTime = 0, currentTrackIndex = 1,
      preferences = prefs, storage = fs, trace = []\<rparr>"

text \<open>\<open>setup\<close>: when the store cannot be mounted the sketch halts in \<open>while (1)\<close>.\<close>

definition setup_sketch :: "globals \<Rightarrow> bool \<Rightarrow> char option \<Rightarrow> globals option" where
  "setup_sketch s mounted choice =
     (if \<not> mounted then None
      else
        (let s1 = println s ''SPIFFS mounted successfully'';
             base = (case preferences s1 ''logBase'' of
                       None \<Rightarrow> ''/premiere_log''
                     | Some v \<Rightarrow> v)
         in selectMode (println (s1\<lparr>logFileBase := base\<rparr>) (''Log file base loaded: '' @ base))
              choice))"

inductive reachable :: "build \<Rightarrow> globals \<Rightarrow> bool" for b :: build where
  boot: "setup_sketch (power_on fs prefs) True choice = Some s \<Longrightarrow> reachable b s"
| step: "reachable b s \<Longrightarrow> loop b s e = Some s' \<Longrightarrow> reachable b s'"

section \<open>Observations and sample inputs\<close>

text \<open>
  A frame is accepted when \<open>handleButtonPress\<close> reaches \<open>logCommand\<close>: the code is in the
  table and the frame is not a repeat of a hold that was already logged. \<open>event_name\<close> is
  the name it is logged under.
\<close>

definition accepted :: "build \<Rightarrow> globals \<Rightarrow> press \<Rightarrow> bool" where
  "accepted b s p = (classify (command p) \<noteq> [] \<and> \<not> (isRepeat b s p \<and> holdLogged s))"

definition event_name :: "build \<Rightarrow> globals \<Rightarrow> press \<Rightarrow> string" where
  "event_name b s p =
     (if isRepeat b s p then classify (command p) @ ''_hold'' else classify (command p))"

text \<open>
  What holds of the hold detector's globals in every run: while a hold is marked as logged,
  the stored name is a table name with the suffix.
\<close>

definition hold_inv :: "globals \<Rightarrow> bool" where
  "hold_inv s = (holdLogged s \<longrightarrow> (\<exists>c. lastButton s = classify c @ ''_hold''))"

text \<open>The two globals of a session, and the two of the listing snapshot.\<close>

definition session_part :: "globals \<Rightarrow> bool \<times> string" where
  "session_part s = (sessionActive s, currentFileName s)"

definition snapshot :: "globals \<Rightarrow> int \<times> string list" where
  "snapshot s = (fileCount s, fileList s)"

text \<open>The invariant of the session manager: a session is active exactly when a file is named.\<close>

definition session_inv :: "globals \<Rightarrow> bool" where
  "session_inv s = (sessionActive s = (currentFileName s \<noteq> []))"

text \<open>The session \<open>/a.txt\<close>, started at tick 0 on an empty store.\<close>

definition fresh_session :: globals where
  "fresh_session = start_session (power_on [] Map.empty) 0 ''a''"

text \<open>A frame handled in no time: the three readings of \<open>millis()\<close> agree.\<close>

definition frame :: "32 word \<Rightarrow> bool \<Rightarrow> 32 word \<Rightarrow> press" where
  "frame c rep t =
     \<lparr>command = c, repeat_flag = rep, at_check = t, at_log = t, at_stamp = t, open_ok = True\<rparr>"

definition by_heuristic :: build where
  "by_heuristic = \<lparr>source = MainCpp, repeat_by = Heuristic\<rparr>"

definition by_flag :: build where
  "by_flag = \<lparr>source = MainCpp, repeat_by = LibraryFlag\<rparr>"

text \<open>
  The button \<open>ok\<close> (code 25) held down in the fresh session, a frame every 600 ms, with the
  repeat test of the \<open>#else\<close> branch: the states after each of four frames.
\<close>

definition held_ok :: "globals list" where
  "held_ok =
     (let s1 = handleButtonPress by_heuristic fresh_session (frame 25 False 600);
          s2 = handleButtonPress by_heuristic s1 (frame 25 False 1200);
          s3 = handleButtonPress by_heuristic s2 (frame 25 False 1800);
          s4 = handleButtonPress by_heuristic s3 (frame 25 False 2400)
      in [s1, s2, s3, s4])"

text \<open>
  With the library's repeat flag: \<open>ok\<close> pressed at 600 ms and its first repeat frame at
  700 ms, which is logged as the hold.
\<close>

definition held_by_flag :: globals where
  "held_by_flag =
     handleButtonPress by_flag
       (handleButtonPress by_flag fresh_session (frame 25 False 600)) (frame 25 True 700)"

text \<open>
  In the spec's words, a numeric argument \<open><n>\<close>: a non-empty run of decimal digits.
\<close>

definition numeric_argument :: "string \<Rightarrow> bool" where
  "numeric_argument a = (a \<noteq> [] \<and> list_all isdigit a)"

text \<open>File management mode over a store of two files, after the listing on entry.\<close>

definition two_files :: globals where
  "two_files =
     listStoredFiles
       ((power_on [(''a.txt'', ''x''), (''b.txt'', ''y'')] Map.empty)\<lparr>irMode := False\<rparr>)"

text \<open>IR mode before any session, and a pass of \<open>loop\<close> that finds one line and nothing else.\<close>

definition idle :: globals where
  "idle = power_on [] Map.empty"

definition line_poll :: "string \<Rightarrow> 32 word \<Rightarrow> poll" where
  "line_poll l t =
     \<lparr>serial_line = Some l, ir_frame = None, now = t, decision = None, grace_lines = [],
      menu_choice = None\<rparr>"

section \<open>Evaluation rules\<close>

lemmas string_ev = String_int_def String_seconds3_def dec_digits.simps digit_char_def Let_def
  isspace_def isdigit_def tolower_def trim_def equalsIgnoreCase_def startsWith_def substring_def
  charAt_def toInt_def

lemma fresh_fields:
  "timestampStart fresh_session = 0" "lastClipTime fresh_session = 0"
  "currentTrackIndex fresh_session = 1" "lastButton fresh_session = []"
  "lastButtonTimestamp fresh_session = 0" "holdLogged fresh_session = False"
  "currentFileName fresh_session = ''/a.txt''" "sessionActive fresh_session = True"
  "storage fresh_session = []"
  "trace fresh_session = [SerialPrintln ''Session started: /a.txt'']"
  by (simp_all add: fresh_session_def start_session_def power_on_def println_def charAt_def Let_def)

lemma frame_fields:
  "command (frame c r t) = c" "repeat_flag (frame c r t) = r" "at_check (frame c r t) = t"
  "at_log (frame c r t) = t" "at_stamp (frame c r t) = t" "open_ok (frame c r t) = True"
  by (simp_all add: frame_def)

lemma build_fields:
  "repeat_by by_heuristic = Heuristic" "repeat_by by_flag = LibraryFlag"
  "source by_heuristic = MainCpp" "source by_flag = MainCpp"
  by (simp_all add: by_heuristic_def by_flag_def)

lemmas run_ev = fresh_fields frame_fields build_fields accepted_def isRepeat_def event_name_def
  classify_def

lemma cmd_ev:
  "commandStr 2 ''ok'' 600 =
     ''app.project.activeSequence.videoTracks[2].insertClip(\"ok.mp4\", 0.600);''"
  "commandStr 3 ''ok_hold'' 1200 =
     ''app.project.activeSequence.videoTracks[3].insertClip(\"ok_hold.mp4\", 1.200);''"
  by (simp_all add: commandStr_def string_ev)

section \<open>Facts about the hold detector and the logger\<close>

lemma sint_succ:
  assumes "sint (x :: 32 word) < 2147483647"
  shows "sint (x + 1) = sint x + 1"
proof -
  have lo: "- (2 ^ 31) \<le> sint x" using sint_ge [of x] by simp
  have "sint (x + 1) = signed_take_bit 31 (sint x + 1)"
    by (simp add: sint_word_ariths)
  also have "\<dots> = sint x + 1"
    using lo assms by (intro signed_take_bit_int_eq_self) simp_all
  finally show ?thesis .
qed

lemma classify_not_power:
  "classify c \<noteq> ''power''" "classify c \<noteq> ''power_hold''" "classify c @ ''_hold'' \<noteq> ''power''"
  by (simp_all add: classify_def)

lemma classify_hold_not_power: "classify c \<noteq> [] \<Longrightarrow> classify c @ ''_hold'' \<noteq> ''power_hold''"
  by (simp add: classify_def split: if_splits)

lemma hbp_not_accepted: "\<not> accepted b s p \<Longrightarrow> handleButtonPress b s p = s"
  by (auto simp: accepted_def handleButtonPress_def Let_def)

lemma hbp_accepted:
  "accepted b s p \<Longrightarrow>
     handleButtonPress b s p =
       (logCommand b (s\<lparr>holdLogged := isRepeat b s p\<rparr>) (open_ok p) (at_log p) (event_name b s p))
         \<lparr>lastButton := event_name b s p, lastButtonTimestamp := at_stamp p\<rparr>"
  by (auto simp: accepted_def handleButtonPress_def event_name_def Let_def)

lemma event_name_not_power:
  "accepted b s p \<Longrightarrow> event_name b s p \<noteq> ''power'' \<and> event_name b s p \<noteq> ''power_hold''"
  using classify_not_power classify_hold_not_power
  by (auto simp: accepted_def event_name_def)

text \<open>
  The guard of \<open>main.cpp\<close> on the names \<open>power\<close> and \<open>power_hold\<close> never fires for a name
  that comes from \<open>handleButtonPress\<close>, so both sources allocate alike.
\<close>

lemma logCommand_fields:
  "name \<noteq> ''power'' \<and> name \<noteq> ''power_hold'' \<Longrightarrow>
   lastClipTime (logCommand b s ok t name) = t - timestampStart s \<and>
   currentTrackIndex (logCommand b s ok t name) =
     (if t - timestampStart s - lastClipTime s < 1000 then currentTrackIndex s + 1 else 1) \<and>
   timestampStart (logCommand b s ok t name) = timestampStart s \<and>
   holdLogged (logCommand b s ok t name) = holdLogged s \<and>
   lastButton (logCommand b s ok t name) = lastButton s \<and>
   lastButtonTimestamp (logCommand b s ok t name) = lastButtonTimestamp s \<and>
   sessionActive (logCommand b s ok t name) = sessionActive s \<and>
   currentFileName (logCommand b s ok t name) = currentFileName s"
  by (simp add: logCommand_def writeToFile_def println_def Let_def split: option.splits)

lemma logCommand_trace:
  "trace (logCommand b s ok t name) =
     trace s @
     [SerialPrintln (commandStr (currentTrackIndex (logCommand b s ok t name)) name (t - timestampStart s))] @
     (if currentFileName s = [] then [SerialPrintln ''No active session file.'']
      else if ok \<and> path_name (currentFileName s) \<noteq> None
      then [StorageAppend (currentFileName s)
              (commandStr (currentTrackIndex (logCommand b s ok t name)) name (t - timestampStart s))]
      else [SerialPrintln (''Failed to open file for writing: '' @ currentFileName s)])"
  by (auto simp add: logCommand_def writeToFile_def println_def Let_def split: option.splits)

lemma logCommand_storage:
  "storage (logCommand b s ok t name) =
     (if currentFileName s \<noteq> [] \<and> ok \<and> path_name (currentFileName s) \<noteq> None
      then spiffs_append (storage s) (the (path_name (currentFileName s)))
             (commandStr (currentTrackIndex (logCommand b s ok t name)) name (t - timestampStart s) @
              [CHR 0x0D, CHR 0x0A])
      else storage s)"
  by (auto simp add: logCommand_def writeToFile_def println_def Let_def split: option.splits)

lemma hbp_fields:
  assumes "accepted b s p"
  shows "lastButton (handleButtonPress b s p) = event_name b s p"
    and "lastButtonTimestamp (handleButtonPress b s p) = at_stamp p"
    and "holdLogged (handleButtonPress b s p) = isRepeat b s p"
    and "timestampStart (handleButtonPress b s p) = timestampStart s"
    and "lastClipTime (handleButtonPress b s p) = at_log p - timestampStart s"
    and "currentTrackIndex (handleButtonPress b s p) =
           (if at_log p - timestampStart s - lastClipTime s < 1000
            then currentTrackIndex s + 1 else 1)"
    and "currentFileName (handleButtonPress b s p) = currentFileName s"
    and "sessionActive (handleButtonPress b s p) = sessionActive s"
  using event_name_not_power [OF assms]
    logCommand_fields [of "event_name b s p" b "s\<lparr>holdLogged := isRepeat b s p\<rparr>" "open_ok p" "at_log p"]
  by (simp_all add: hbp_accepted [OF assms])

lemma hbp_trace:
  assumes "accepted b s p"
  shows "trace (handleButtonPress b s p) =
     trace s @
     [SerialPrintln (commandStr (currentTrackIndex (handleButtonPress b s p)) (event_name b s p)
                       (at_log p - timestampStart s))] @
     (if currentFileName s = [] then [SerialPrintln ''No active session file.'']
      else if open_ok p \<and> path_name (currentFileName s) \<noteq> None
      then [StorageAppend (currentFileName s)
              (commandStr (currentTrackIndex (handleButtonPress b s p)) (event_name b s p)
                 (at_log p - timestampStart s))]
      else [SerialPrintln (''Failed to open file for writing: '' @ currentFileName s)])"
  by (auto simp add: hbp_accepted [OF assms] logCommand_trace)

lemma fresh_ok_accepted: "accepted by_heuristic fresh_session (frame 25 False 500)"
  by (simp add: run_ev)

lemma fresh_log_track: "currentTrackIndex (logCommand by_heuristic fresh_session ok 600 ''ok'') = 2"
  using logCommand_fields [of "''ok''" by_heuristic fresh_session ok 600]
  by (simp add: fresh_fields)

subsection \<open>The two repeat tests on a held button\<close>

text \<open>
  With the library's flag, once a hold is logged every further repeat frame is dropped and
  the state stays as it is; the first repeat frame after a plain press is the hold.
\<close>

lemma flag_repeats_suppressed:
  "repeat_by b = LibraryFlag \<Longrightarrow> holdLogged s \<Longrightarrow> \<forall>p \<in> set ps. repeat_flag p \<Longrightarrow>
   foldl (handleButtonPress b) s ps = s"
proof (induction ps)
  case Nil
  then show ?case by simp
next
  case (Cons p ps)
  then have "\<not> accepted b s p" by (simp add: accepted_def isRepeat_def)
  then have "handleButtonPress b s p = s" by (rule hbp_not_accepted)
  with Cons show ?case by simp
qed

lemma flag_first_repeat_is_hold:
  "repeat_by b = LibraryFlag \<Longrightarrow> \<not> holdLogged s \<Longrightarrow> repeat_flag p \<Longrightarrow>
   classify (command p) \<noteq> [] \<Longrightarrow>
   accepted b s p \<and> event_name b s p = classify (command p) @ ''_hold'' \<and>
   holdLogged (handleButtonPress b s p)"
proof -
  assume h: "repeat_by b = LibraryFlag" "\<not> holdLogged s" "repeat_flag p"
    "classify (command p) \<noteq> []"
  then have a: "accepted b s p" by (simp add: accepted_def)
  from h show ?thesis by (simp add: a hbp_fields [OF a] event_name_def isRepeat_def)
qed

text \<open>
  With the time test, the name stored after a hold carries the suffix, and no name of the
  table does: the frame after a logged hold is never a repeat.
\<close>

lemma heuristic_never_repeat_after_hold:
  "repeat_by b = Heuristic \<Longrightarrow> lastButton s = classify c @ ''_hold'' \<Longrightarrow> \<not> isRepeat b s p"
  by (simp add: isRepeat_def classify_def)

text \<open>
  So with the time test the branch that suppresses a frame is never taken: every frame
  with a code of the table is logged.
\<close>

lemma heuristic_never_suppresses:
  assumes h: "repeat_by b = Heuristic" and i: "hold_inv s"
  shows "hold_inv (handleButtonPress b s p) \<and> (classify (command p) \<noteq> [] \<longrightarrow> accepted b s p)"
proof (cases "classify (command p) = []")
  case True
  then have "\<not> accepted b s p" by (simp add: accepted_def)
  then have "handleButtonPress b s p = s" by (rule hbp_not_accepted)
  with i True show ?thesis by simp
next
  case False
  have "\<not> (isRepeat b s p \<and> holdLogged s)"
    using h i heuristic_never_repeat_after_hold by (auto simp add: hold_inv_def)
  with False have a: "accepted b s p" by (simp add: accepted_def)
  have "hold_inv (handleButtonPress b s p)"
    by (auto simp add: hold_inv_def hbp_fields [OF a] event_name_def)
  with a show ?thesis by simp
qed

lemma held_by_flag_fields:
  "holdLogged held_by_flag" "lastButton held_by_flag = ''ok_hold''"
  "lastButtonTimestamp held_by_flag = 700"
proof -
  define s1 where "s1 = handleButtonPress by_flag fresh_session (frame 25 False 600)"
  have a1: "accepted by_flag fresh_session (frame 25 False 600)"
    by (simp add: run_ev)
  note f1 = hbp_fields [OF a1, folded s1_def]
  have v1: "holdLogged s1 = False"
    by (simp add: f1 run_ev)
  have a2: "accepted by_flag s1 (frame 25 True 700)"
    by (simp add: accepted_def v1 classify_def frame_fields)
  have h: "held_by_flag = handleButtonPress by_flag s1 (frame 25 True 700)"
    by (simp add: held_by_flag_def s1_def)
  show "holdLogged held_by_flag" "lastButton held_by_flag = ''ok_hold''"
    "lastButtonTimestamp held_by_flag = 700"
    by (simp_all add: h hbp_fields [OF a2] isRepeat_def event_name_def build_fields frame_fields
        classify_def)
qed

section \<open>One hold event per hold\<close>

text \<open>
  C1. The claim is that a button held down, its frames less than 700 ms apart, is logged
  with the \<open>_hold\<close> suffix exactly once and then suppressed. With the time test of the
  \<open>#else\<close> branch the code does otherwise: \<open>ok\<close> held for four frames 600 ms apart is logged
  as \<open>ok\<close>, \<open>ok_hold\<close>, \<open>ok\<close>, \<open>ok_hold\<close>, two hold events in one run and no frame suppressed.
\<close>

theorem hold_run_heuristic:
  "map lastButton held_ok = [''ok'', ''ok_hold'', ''ok'', ''ok_hold''] \<and>
   map holdLogged held_ok = [False, True, False, True] \<and>
   map (\<lambda>s. length (trace s)) held_ok = [3, 5, 7, 9] \<and>
   trace (held_ok ! 3) =
     [SerialPrintln ''Session started: /a.txt'',
      SerialPrintln ''app.project.activeSequence.videoTracks[2].insertClip(\"ok.mp4\", 0.600);'',
      StorageAppend ''/a.txt'' ''app.project.activeSequence.videoTracks[2].insertClip(\"ok.mp4\", 0.600);'',
      SerialPrintln ''app.project.activeSequence.videoTracks[3].insertClip(\"ok_hold.mp4\", 1.200);'',
      StorageAppend ''/a.txt'' ''app.project.activeSequence.videoTracks[3].insertClip(\"ok_hold.mp4\", 1.200);'',
      SerialPrintln ''app.project.activeSequence.videoTracks[4].insertClip(\"ok.mp4\", 1.800);'',
      StorageAppend ''/a.txt'' ''app.project.activeSequence.videoTracks[4].insertClip(\"ok.mp4\", 1.800);'',
      SerialPrintln ''app.project.activeSequence.videoTracks[5].insertClip(\"ok_hold.mp4\", 2.400);'',
      StorageAppend ''/a.txt'' ''app.project.activeSequence.videoTracks[5].insertClip(\"ok_hold.mp4\", 2.400);'']"
proof -
  define s1 where "s1 = handleButtonPress by_heuristic fresh_session (frame 25 False 600)"
  define s2 where "s2 = handleButtonPress by_heuristic s1 (frame 25 False 1200)"
  define s3 where "s3 = handleButtonPress by_heuristic s2 (frame 25 False 1800)"
  define s4 where "s4 = handleButtonPress by_heuristic s3 (frame 25 False 2400)"
  have h: "held_ok = [s1, s2, s3, s4]"
    by (simp add: held_ok_def s1_def s2_def s3_def s4_def Let_def)
  have a1: "accepted by_heuristic fresh_session (frame 25 False 600)"
    by (simp add: run_ev)
  note f1 = hbp_fields [OF a1, folded s1_def]
  have v1: "lastButton s1 = ''ok''" "holdLogged s1 = False" "lastButtonTimestamp s1 = 600"
    "timestampStart s1 = 0" "lastClipTime s1 = 600" "currentTrackIndex s1 = 2"
    "currentFileName s1 = ''/a.txt''"
    by (simp_all add: f1 run_ev)
  have t1: "trace s1 = trace fresh_session @
      [SerialPrintln ''app.project.activeSequence.videoTracks[2].insertClip(\"ok.mp4\", 0.600);'',
       StorageAppend ''/a.txt'' ''app.project.activeSequence.videoTracks[2].insertClip(\"ok.mp4\", 0.600);'']"
    using hbp_trace [OF a1, folded s1_def]
    by (simp add: v1 run_ev path_name_def commandStr_def string_ev)
  have a2: "accepted by_heuristic s1 (frame 25 False 1200)"
    by (simp add: accepted_def isRepeat_def v1 frame_fields build_fields classify_def)
  note f2 = hbp_fields [OF a2, folded s2_def]
  have v2: "lastButton s2 = ''ok_hold''" "holdLogged s2 = True" "lastButtonTimestamp s2 = 1200"
    "timestampStart s2 = 0" "lastClipTime s2 = 1200" "currentTrackIndex s2 = 3"
    "currentFileName s2 = ''/a.txt''"
    by (simp_all add: f2 v1 event_name_def isRepeat_def frame_fields build_fields classify_def)
  have t2: "trace s2 = trace s1 @
      [SerialPrintln ''app.project.activeSequence.videoTracks[3].insertClip(\"ok_hold.mp4\", 1.200);'',
       StorageAppend ''/a.txt'' ''app.project.activeSequence.videoTracks[3].insertClip(\"ok_hold.mp4\", 1.200);'']"
    using hbp_trace [OF a2, folded s2_def]
    by (simp add: v1 v2 event_name_def isRepeat_def frame_fields build_fields classify_def
        path_name_def commandStr_def string_ev)
  have a3: "accepted by_heuristic s2 (frame 25 False 1800)"
    by (simp add: accepted_def isRepeat_def v2 frame_fields build_fields classify_def)
  note f3 = hbp_fields [OF a3, folded s3_def]
  have v3: "lastButton s3 = ''ok''" "holdLogged s3 = False" "lastButtonTimestamp s3 = 1800"
    "timestampStart s3 = 0" "lastClipTime s3 = 1800" "currentTrackIndex s3 = 4"
    "currentFileName s3 = ''/a.txt''"
    by (simp_all add: f3 v2 event_name_def isRepeat_def frame_fields build_fields classify_def)
  have t3: "trace s3 = trace s2 @
      [SerialPrintln ''app.project.activeSequence.videoTracks[4].insertClip(\"ok.mp4\", 1.800);'',
       StorageAppend ''/a.txt'' ''app.project.activeSequence.videoTracks[4].insertClip(\"ok.mp4\", 1.800);'']"
    using hbp_trace [OF a3, folded s3_def]
    by (simp add: v2 v3 event_name_def isRepeat_def frame_fields build_fields classify_def
        path_name_def commandStr_def string_ev)
  have a4: "accepted by_heuristic s3 (frame 25 False 2400)"
    by (simp add: accepted_def isRepeat_def v3 frame_fields build_fields classify_def)
  note f4 = hbp_fields [OF a4, folded s4_def]
  have v4: "lastButton s4 = ''ok_hold''" "holdLogged s4 = True"
    "currentTrackIndex s4 = 5"
    by (simp_all add: f4 v3 event_name_def isRepeat_def frame_fields build_fields classify_def)
  have t4: "trace s4 = trace s3 @
      [SerialPrintln ''app.project.activeSequence.videoTracks[5].insertClip(\"ok_hold.mp4\", 2.400);'',
       StorageAppend ''/a.txt'' ''app.project.activeSequence.videoTracks[5].insertClip(\"ok_hold.mp4\", 2.400);'']"
    using hbp_trace [OF a4, folded s4_def]
    by (simp add: v3 v4 event_name_def isRepeat_def frame_fields build_fields classify_def
        path_name_def commandStr_def string_ev)
  show ?thesis
    by (simp add: h v1 v2 v3 v4 t1 t2 t3 t4 fresh_fields)
qed

section \<open>Track allocation\<close>

text \<open>
  C2. For every accepted frame the allocator takes the clip time as the reading of
  \<open>millis()\<close> in \<open>logCommand\<close> minus \<open>timestampStart\<close>, stores it in \<open>lastClipTime\<close>, and
  sets the track index to the old index plus one when the clip time is less than 1000 ms
  after the stored one (unsigned 32-bit difference) and to 1 otherwise. So the next
  accepted frame gets the track of this one plus one when it comes less than 1000 ms later
  and track 1 otherwise; the plus one is a strict increase of the \<open>int\<close> below its maximum.
  A frame that is not accepted leaves both allocator fields alone.
\<close>

theorem track_allocation:
  "accepted b s p \<Longrightarrow>
     lastClipTime (handleButtonPress b s p) = at_log p - timestampStart s \<and>
     currentTrackIndex (handleButtonPress b s p) =
       (if at_log p - timestampStart s - lastClipTime s < 1000
        then currentTrackIndex s + 1 else 1) \<and>
     (at_log p - timestampStart s - lastClipTime s < 1000 \<and>
      sint (currentTrackIndex s) < 2147483647 \<longrightarrow>
        sint (currentTrackIndex (handleButtonPress b s p)) = sint (currentTrackIndex s) + 1) \<and>
     (\<forall>q. accepted b (handleButtonPress b s p) q \<longrightarrow>
        currentTrackIndex (handleButtonPress b (handleButtonPress b s p) q) =
          (if (at_log q - timestampStart s) - (at_log p - timestampStart s) < 1000
           then currentTrackIndex (handleButtonPress b s p) + 1 else 1)) \<and>
     (\<forall>q. \<not> accepted b s q \<longrightarrow>
        currentTrackIndex (handleButtonPress b s q) = currentTrackIndex s \<and>
        lastClipTime (handleButtonPress b s q) = lastClipTime s)"
proof -
  assume acc: "accepted b s p"
  let ?s1 = "handleButtonPress b s p"
  have one: "lastClipTime ?s1 = at_log p - timestampStart s"
    and two: "currentTrackIndex ?s1 =
       (if at_log p - timestampStart s - lastClipTime s < 1000 then currentTrackIndex s + 1 else 1)"
    and ts: "timestampStart ?s1 = timestampStart s"
    using hbp_fields [OF acc] by simp_all
  have three: "at_log p - timestampStart s - lastClipTime s < 1000 \<and>
      sint (currentTrackIndex s) < 2147483647 \<longrightarrow>
        sint (currentTrackIndex ?s1) = sint (currentTrackIndex s) + 1"
    using two sint_succ by simp
  have four: "\<forall>q. accepted b ?s1 q \<longrightarrow>
        currentTrackIndex (handleButtonPress b ?s1 q) =
          (if (at_log q - timestampStart s) - (at_log p - timestampStart s) < 1000
           then currentTrackIndex ?s1 + 1 else 1)"
    using one ts by (simp add: hbp_fields)
  have five: "\<forall>q. \<not> accepted b s q \<longrightarrow>
        currentTrackIndex (handleButtonPress b s q) = currentTrackIndex s \<and>
        lastClipTime (handleButtonPress b s q) = lastClipTime s"
    by (simp add: hbp_not_accepted)
  from one two three four five show ?thesis by blast
qed

theorem track_allocation_witness:
  "accepted by_heuristic fresh_session (frame 25 False 500) \<and>
   lastClipTime (handleButtonPress by_heuristic fresh_session (frame 25 False 500)) = 500 \<and>
   currentTrackIndex (handleButtonPress by_heuristic fresh_session (frame 25 False 500)) = 2 \<and>
   currentTrackIndex
     (handleButtonPress by_heuristic
        (handleButtonPress by_heuristic fresh_session (frame 25 False 500))
        (frame 24 False 1400)) = 3 \<and>
   currentTrackIndex
     (handleButtonPress by_heuristic
        (handleButtonPress by_heuristic fresh_session (frame 25 False 500))
        (frame 24 False 1500)) = 1"
proof -
  have a: "accepted by_heuristic fresh_session (frame 25 False 500)"
    by (simp add: run_ev)
  have f: "lastButton (handleButtonPress by_heuristic fresh_session (frame 25 False 500)) = ''ok''"
    "holdLogged (handleButtonPress by_heuristic fresh_session (frame 25 False 500)) = False"
    by (simp_all add: hbp_fields [OF a] run_ev)
  have b: "accepted by_heuristic
             (handleButtonPress by_heuristic fresh_session (frame 25 False 500)) (frame 24 False 1400)"
    "accepted by_heuristic
             (handleButtonPress by_heuristic fresh_session (frame 25 False 500)) (frame 24 False 1500)"
    by (simp_all add: accepted_def isRepeat_def f frame_fields build_fields classify_def)
  show ?thesis
    using track_allocation [OF a] a b by (simp add: fresh_fields frame_fields)
qed

section \<open>What the hold detector remembers\<close>




section \<open>Echo and append\<close>

text \<open>
  C5, as amended. During a session (\<open>currentFileName\<close> is not empty) \<open>logCommand\<close> first
  echoes the command line on the control channel and then appends it to the session file.
  When \<open>SPIFFS.open\<close> gives no handle the echo has already happened, a failure message
  follows it, and the store is left exactly as it was.
\<close>

theorem log_echo_then_append:
  "currentFileName s \<noteq> [] \<Longrightarrow>
   trace (logCommand b s ok t name) =
     trace s @
     [SerialPrintln (commandStr (currentTrackIndex (logCommand b s ok t name)) name (t - timestampStart s)),
      if ok \<and> path_name (currentFileName s) \<noteq> None
      then StorageAppend (currentFileName s)
             (commandStr (currentTrackIndex (logCommand b s ok t name)) name (t - timestampStart s))
      else SerialPrintln (''Failed to open file for writing: '' @ currentFileName s)] \<and>
   storage (logCommand b s ok t name) =
     (if ok \<and> path_name (currentFileName s) \<noteq> None
      then spiffs_append (storage s) (the (path_name (currentFileName s)))
             (commandStr (currentTrackIndex (logCommand b s ok t name)) name (t - timestampStart s) @
              [CHR 0x0D, CHR 0x0A])
      else storage s)"
  by (simp add: logCommand_trace logCommand_storage)

theorem log_echo_then_append_witness:
  "currentFileName fresh_session \<noteq> [] \<and>
   trace (logCommand by_heuristic fresh_session True 600 ''ok'') =
     [SerialPrintln ''Session started: /a.txt'',
      SerialPrintln ''app.project.activeSequence.videoTracks[2].insertClip(\"ok.mp4\", 0.600);'',
      StorageAppend ''/a.txt'' ''app.project.activeSequence.videoTracks[2].insertClip(\"ok.mp4\", 0.600);''] \<and>
   storage (logCommand by_heuristic fresh_session True 600 ''ok'') =
     [(''a.txt'', ''app.project.activeSequence.videoTracks[2].insertClip(\"ok.mp4\", 0.600);'' @
                  [CHR 0x0D, CHR 0x0A])] \<and>
   trace (logCommand by_heuristic fresh_session False 600 ''ok'') =
     [SerialPrintln ''Session started: /a.txt'',
      SerialPrintln ''app.project.activeSequence.videoTracks[2].insertClip(\"ok.mp4\", 0.600);'',
      SerialPrintln ''Failed to open file for writing: /a.txt''] \<and>
   storage (logCommand by_heuristic fresh_session False 600 ''ok'') = []"
  using log_echo_then_append [of fresh_session by_heuristic True 600 "''ok''"]
    log_echo_then_append [of fresh_session by_heuristic False 600 "''ok''"]
  by (simp add: fresh_fields fresh_log_track cmd_ev path_name_def spiffs_append_def)

text \<open>The order of the claim, append first and echo second, is not the order of the code.\<close>

theorem log_append_first_counterexample:
  "trace (logCommand by_heuristic fresh_session True 600 ''ok'') \<noteq>
     trace fresh_session @
     [StorageAppend ''/a.txt'' ''app.project.activeSequence.videoTracks[2].insertClip(\"ok.mp4\", 0.600);'',
      SerialPrintln ''app.project.activeSequence.videoTracks[2].insertClip(\"ok.mp4\", 0.600);'']"
  by (simp add: logCommand_trace fresh_fields fresh_log_track cmd_ev path_name_def)

section \<open>The log line\<close>

text \<open>
  C8. An accepted frame with label \<open>L\<close>, track index \<open>T\<close> and clip time \<open>t\<close> milliseconds
  puts exactly one command line on the control channel, followed by its append to the
  session file (or by the report of a failed open); the line is
  \<open>app.project.activeSequence.videoTracks[T].insertClip("L.mp4", s);\<close> with \<open>T\<close> in decimal
  and \<open>s\<close> the seconds of \<open>t\<close>, a point and three digits of milliseconds. A frame that is
  not accepted produces nothing.
\<close>

theorem log_line_format:
  "(accepted b s p \<longrightarrow>
      trace (handleButtonPress b s p) =
        trace s @
        [SerialPrintln
           (''app.project.activeSequence.videoTracks['' @
            String_int (sint (currentTrackIndex (handleButtonPress b s p))) @
            ''].insertClip(\"'' @ event_name b s p @ ''.mp4\", '' @
            String_seconds3 (lastClipTime (handleButtonPress b s p)) @ '');''),
         if currentFileName s = [] then SerialPrintln ''No active session file.''
         else if open_ok p \<and> path_name (currentFileName s) \<noteq> None
         then StorageAppend (currentFileName s)
           (''app.project.activeSequence.videoTracks['' @
            String_int (sint (currentTrackIndex (handleButtonPress b s p))) @
            ''].insertClip(\"'' @ event_name b s p @ ''.mp4\", '' @
            String_seconds3 (lastClipTime (handleButtonPress b s p)) @ '');'')
         else SerialPrintln (''Failed to open file for writing: '' @ currentFileName s)]) \<and>
   (\<not> accepted b s p \<longrightarrow> trace (handleButtonPress b s p) = trace s) \<and>
   String_seconds3 t =
     dec_digits (unat t div 1000) @ ''.'' @
     [digit_char (unat t mod 1000 div 100), digit_char (unat t mod 1000 div 10),
      digit_char (unat t mod 1000)]"
proof (intro conjI impI)
  assume a: "accepted b s p"
  show "trace (handleButtonPress b s p) =
        trace s @
        [SerialPrintln
           (''app.project.activeSequence.videoTracks['' @
            String_int (sint (currentTrackIndex (handleButtonPress b s p))) @
            ''].insertClip(\"'' @ event_name b s p @ ''.mp4\", '' @
            String_seconds3 (lastClipTime (handleButtonPress b s p)) @ '');''),
         if currentFileName s = [] then SerialPrintln ''No active session file.''
         else if open_ok p \<and> path_name (currentFileName s) \<noteq> None
         then StorageAppend (currentFileName s)
           (''app.project.activeSequence.videoTracks['' @
            String_int (sint (currentTrackIndex (handleButtonPress b s p))) @
            ''].insertClip(\"'' @ event_name b s p @ ''.mp4\", '' @
            String_seconds3 (lastClipTime (handleButtonPress b s p)) @ '');'')
         else SerialPrintln (''Failed to open file for writing: '' @ currentFileName s)]"
    using hbp_trace [OF a] hbp_fields(5) [OF a]
    by (auto simp add: commandStr_def)
next
  assume "\<not> accepted b s p"
  then show "trace (handleButtonPress b s p) = trace s"
    by (simp add: hbp_not_accepted)
next
  show "String_seconds3 t =
     dec_digits (unat t div 1000) @ ''.'' @
     [digit_char (unat t mod 1000 div 100), digit_char (unat t mod 1000 div 10),
      digit_char (unat t mod 1000)]"
    by (simp add: String_seconds3_def Let_def)
qed

theorem log_line_format_witness:
  "accepted by_flag fresh_session (frame 25 False 600) \<and>
   trace (handleButtonPress by_flag fresh_session (frame 25 False 600)) =
     [SerialPrintln ''Session started: /a.txt'',
      SerialPrintln ''app.project.activeSequence.videoTracks[2].insertClip(\"ok.mp4\", 0.600);'',
      StorageAppend ''/a.txt'' ''app.project.activeSequence.videoTracks[2].insertClip(\"ok.mp4\", 0.600);''] \<and>
   \<not> accepted by_flag held_by_flag (frame 25 True 800) \<and>
   trace (handleButtonPress by_flag held_by_flag (frame 25 True 800)) = trace held_by_flag \<and>
   String_seconds3 4294967295 = ''4294967.295''"
proof -
  have a: "accepted by_flag fresh_session (frame 25 False 600)"
    by (simp add: run_ev)
  have n: "\<not> accepted by_flag held_by_flag (frame 25 True 800)"
    by (simp add: accepted_def isRepeat_def held_by_flag_fields build_fields frame_fields)
  have v: "currentTrackIndex (handleButtonPress by_flag fresh_session (frame 25 False 600)) = 2"
    "lastClipTime (handleButtonPress by_flag fresh_session (frame 25 False 600)) = 600"
    by (simp_all add: hbp_fields [OF a] run_ev)
  show ?thesis
    using log_line_format [of by_flag fresh_session "frame 25 False 600" 4294967295]
      log_line_format [of by_flag held_by_flag "frame 25 True 800" 0] a n
    by (simp add: v run_ev path_name_def string_ev)
qed

section \<open>Facts about file management\<close>

lemma println_frame [simp]:
  "session_part (println s l) = session_part s" "snapshot (println s l) = snapshot s"
  "storage (println s l) = storage s" "trace (println s l) = trace s @ [SerialPrintln l]"
  by (simp_all add: println_def session_part_def snapshot_def)

lemma print_frame [simp]:
  "session_part (print s l) = session_part s" "snapshot (print s l) = snapshot s"
  "storage (print s l) = storage s" "trace (print s l) = trace s @ [SerialPrint l]"
  by (simp_all add: print_def session_part_def snapshot_def)

lemma printlns_frame [simp]:
  "session_part (printlns s ls) = session_part s" "snapshot (printlns s ls) = snapshot s"
  "storage (printlns s ls) = storage s" "trace (printlns s ls) = trace s @ map SerialPrintln ls"
  by (induction ls arbitrary: s) (simp_all add: printlns_def)

lemma remove_file_frame [simp]:
  "session_part (snd (remove_file s p)) = session_part s"
  "snapshot (snd (remove_file s p)) = snapshot s"
  "storage (snd (remove_file s p)) = snd (spiffs_remove (storage s) p)"
  by (simp_all add: remove_file_def session_part_def snapshot_def Let_def)

lemma spiffs_remove_slash: "snd (spiffs_remove fs (CHR ''/'' # n)) = filter (\<lambda>f. fst f \<noteq> n) fs"
  by (simp add: spiffs_remove_def path_name_def case_prod_unfold)

lemma delete_loop_frame [simp]:
  "session_part (delete_loop s l) = session_part s"
  "snapshot (delete_loop s l) = snapshot s"
proof (induction l arbitrary: s)
  case Nil
  { case 1 show ?case by simp }
  { case 2 show ?case by simp }
next
  case (Cons f l)
  { case 1 show ?case by (simp add: Cons.IH(1)) (simp add: session_part_def) }
  { case 2 show ?case by (simp add: Cons.IH(2)) (simp add: snapshot_def) }
qed

lemma delete_loop_storage:
  "storage (delete_loop s l) = filter (\<lambda>f. fst f \<notin> fst ` set l) (storage s)"
proof (induction l arbitrary: s)
  case Nil
  then show ?case by simp
next
  case (Cons f l)
  have "storage (snd (remove_file (s\<lparr>fileName := ''/'' @ fst f\<rparr>) (''/'' @ fst f))) =
        filter (\<lambda>g. fst g \<noteq> fst f) (storage s)"
    by (simp add: spiffs_remove_slash)
  then show ?case
    by (simp add: Cons.IH del: remove_file_frame)
qed

lemma deleteAllFiles_frame [simp]:
  "session_part (deleteAllFiles s) = session_part s"
  "snapshot (deleteAllFiles s) = snapshot s"
  "storage (deleteAllFiles s) = []"
proof -
  have a: "session_part (s'\<lparr>fileName := x\<rparr>) = session_part s'" for s' x
    by (simp add: session_part_def)
  have b: "snapshot (s'\<lparr>fileName := x\<rparr>) = snapshot s'" for s' x
    by (simp add: snapshot_def)
  show "session_part (deleteAllFiles s) = session_part s" by (simp add: deleteAllFiles_def a)
  show "snapshot (deleteAllFiles s) = snapshot s" by (simp add: deleteAllFiles_def b)
  have "filter (\<lambda>f. fst f \<notin> fst ` set (storage s)) (storage s) = []"
    by (simp add: filter_empty_conv)
  then show "storage (deleteAllFiles s) = []"
    by (simp add: deleteAllFiles_def delete_loop_storage)
qed

lemma list_loop_frame [simp]:
  "session_part (list_loop s l) = session_part s" "storage (list_loop s l) = storage s"
proof (induction s l rule: list_loop.induct)
  case (1 s)
  { case 1 show ?case by simp }
  { case 2 show ?case by simp }
next
  case (2 s f rest)
  { case 1 show ?case using "2.IH"(1) by (simp add: session_part_def print_def) }
  { case 2 show ?case using "2.IH"(2) by (simp add: print_def) }
qed

lemma listStoredFiles_frame [simp]:
  "session_part (listStoredFiles s) = session_part s" "storage (listStoredFiles s) = storage s"
proof -
  have a: "session_part (s\<lparr>fileCount := 0\<rparr>) = session_part s" by (simp add: session_part_def)
  show "session_part (listStoredFiles s) = session_part s"
    by (simp add: listStoredFiles_def Let_def a)
  show "storage (listStoredFiles s) = storage s"
    by (simp add: listStoredFiles_def Let_def)
qed


lemma sendFileOverSerial_frame [simp]:
  "session_part (sendFileOverSerial s f) = session_part s"
  "snapshot (sendFileOverSerial s f) = snapshot s"
  "storage (sendFileOverSerial s f) = storage s"
  by (simp_all add: sendFileOverSerial_def Let_def session_part_def snapshot_def println_def print_def
      split: option.splits)


lemma foldl_send_frame [simp]:
  "session_part (foldl sendFileOverSerial s fs) = session_part s"
  "snapshot (foldl sendFileOverSerial s fs) = snapshot s"
  "storage (foldl sendFileOverSerial s fs) = storage s"
  by (induction fs arbitrary: s) simp_all


lemma sendAll_frame [simp]:
  "session_part (sendAllFilesOverSerial s) = session_part s"
  "snapshot (sendAllFilesOverSerial s) = snapshot s"
  "storage (sendAllFilesOverSerial s) = storage s"
  by (simp_all add: sendAllFilesOverSerial_def)



lemma dispatch_send:
  "trim raw = ''send '' @ arg \<Longrightarrow>
   handleSerialCommand s c raw =
     (if arg = ''all'' then Some (sendAllFilesOverSerial s)
      else if toInt arg > 0 \<and> toInt arg \<le> fileCount s
      then Some (sendFileOverSerial s (fileList s ! nat (toInt arg - 1)))
      else Some (println s ''Invalid file number.''))"
  by (simp add: handleSerialCommand_def startsWith_def substring_def Let_def)

lemma dispatch_delete_one:
  "trim raw = ''delete '' @ arg \<Longrightarrow>
   handleSerialCommand s c raw =
     (if toInt (trim arg) > 0 \<and> toInt (trim arg) \<le> fileCount s
      then Some (listStoredFiles
             (println (snd (remove_file s (fileList s ! nat (toInt (trim arg) - 1))))
                ((if fst (remove_file s (fileList s ! nat (toInt (trim arg) - 1)))
                  then ''Deleted file: '' else ''Failed to delete file: '') @
                 fileList s ! nat (toInt (trim arg) - 1))))
      else Some (println s ''Invalid file number.''))"
  by (simp add: handleSerialCommand_def startsWith_def substring_def Let_def)

lemma digits_value_nodigit: "(\<forall>c \<in> set cs. \<not> isdigit c) \<Longrightarrow> digits_value a cs = a"
  by (cases cs) simp_all

lemma toInt_nodigit: "(\<forall>c \<in> set a. \<not> isdigit c) \<Longrightarrow> toInt a = 0"
proof -
  assume h: "\<forall>c \<in> set a. \<not> isdigit c"
  define r where "r = dropWhile isspace a"
  have r: "\<forall>c \<in> set r. \<not> isdigit c"
    using h unfolding r_def by (meson set_dropWhileD)
  have t: "toInt a =
      max (- 2147483648) (min 2147483647
        (case r of [] \<Rightarrow> 0
         | c # cs \<Rightarrow> if c = CHR ''-'' then - digits_value 0 cs
                     else if c = CHR ''+'' then digits_value 0 cs else digits_value 0 r))"
    unfolding toInt_def r_def Let_def ..
  show ?thesis
  proof (cases r)
    case Nil
    then show ?thesis by (simp add: t)
  next
    case (Cons c cs)
    with r have "\<not> isdigit c" "\<forall>d \<in> set cs. \<not> isdigit d" by simp_all
    then show ?thesis
      by (simp add: t Cons digits_value_nodigit)
  qed
qed

lemma two_files_fields:
  "fileCount two_files = 2" "fileList two_files ! 0 = ''/a.txt''" "fileList two_files ! 1 = ''/b.txt''"
  "storage two_files = [(''a.txt'', ''x''), (''b.txt'', ''y'')]"
  "take 2 (fileList two_files) = [''/a.txt'', ''/b.txt'']"
  "trace two_files = [SerialPrint (''[1] /a.txt'' @ [CHR 0x0A]), SerialPrint (''[2] /b.txt'' @ [CHR 0x0A])]"
  by (simp_all add: two_files_def listStoredFiles_def power_on_def print_def file_path_def Let_def
      String_int_def dec_digits.simps digit_char_def nth_list_update take_Suc_conv_app_nth numeral_2_eq_2)


lemma trim_ev:
  "trim ''delete'' = ''delete''" "trim ''list'' = ''list''" "trim ''send 1x'' = ''send 1x''"
  "trim ''send 1'' = ''send 1''" "trim ''send all'' = ''send all''" "trim ''send 7'' = ''send 7''"
  "trim ''delete abc'' = ''delete abc''" "trim ''abc'' = ''abc''" "trim [] = []"
  by (simp_all add: trim_def isspace_def)

lemma toInt_ev: "toInt ''1x'' = 1" "toInt ''1'' = 1" "toInt ''7'' = 7" "toInt ''abc'' = 0"
  by (simp_all add: toInt_def isspace_def isdigit_def)

lemma set_trim: "x \<in> set (trim a) \<Longrightarrow> x \<in> set a"
  unfolding trim_def by (auto dest!: set_dropWhileD)

section \<open>Invalid file numbers\<close>

text \<open>
  C7, as amended. \<open>send <n>\<close> (other than \<open>send all\<close>) and \<open>delete <n>\<close> read \<open><n>\<close> with
  \<open>toInt\<close>: the leading decimal number of the argument, 0 when it has none. When that
  value lies outside 1 .. \<open>fileCount\<close> the router prints \<open>Invalid file number.\<close> and changes
  nothing else: the result is the old state with that one line added to the output. An
  argument without any digit reads as 0 and is therefore refused.
\<close>

theorem invalid_index_no_change:
  "(trim raw = ''send '' @ arg \<and> arg \<noteq> ''all'' \<and> \<not> (0 < toInt arg \<and> toInt arg \<le> fileCount s) \<longrightarrow>
      handleSerialCommand s c raw = Some (s\<lparr>trace := trace s @ [SerialPrintln ''Invalid file number.'']\<rparr>)) \<and>
   (trim raw = ''delete '' @ arg \<and> \<not> (0 < toInt (trim arg) \<and> toInt (trim arg) \<le> fileCount s) \<longrightarrow>
      handleSerialCommand s c raw = Some (s\<lparr>trace := trace s @ [SerialPrintln ''Invalid file number.'']\<rparr>)) \<and>
   ((\<forall>ch \<in> set arg. \<not> isdigit ch) \<longrightarrow> toInt arg = 0 \<and> toInt (trim arg) = 0)"
proof (intro conjI impI)
  assume "trim raw = ''send '' @ arg \<and> arg \<noteq> ''all'' \<and> \<not> (0 < toInt arg \<and> toInt arg \<le> fileCount s)"
  then show "handleSerialCommand s c raw = Some (s\<lparr>trace := trace s @ [SerialPrintln ''Invalid file number.'']\<rparr>)"
    by (auto simp add: dispatch_send println_def)
next
  assume "trim raw = ''delete '' @ arg \<and> \<not> (0 < toInt (trim arg) \<and> toInt (trim arg) \<le> fileCount s)"
  then show "handleSerialCommand s c raw = Some (s\<lparr>trace := trace s @ [SerialPrintln ''Invalid file number.'']\<rparr>)"
    by (auto simp add: dispatch_delete_one println_def)
next
  assume h: "\<forall>ch \<in> set arg. \<not> isdigit ch"
  then show "toInt arg = 0" by (rule toInt_nodigit)
next
  assume h: "\<forall>ch \<in> set arg. \<not> isdigit ch"
  then show "toInt (trim arg) = 0" by (intro toInt_nodigit) (blast dest: set_trim)
qed

theorem invalid_index_no_change_witness:
  "trim ''send 7'' = ''send '' @ ''7'' \<and> ''7'' \<noteq> ''all'' \<and> \<not> (0 < toInt ''7'' \<and> toInt ''7'' \<le> fileCount two_files) \<and>
   handleSerialCommand two_files None ''send 7'' =
     Some (two_files\<lparr>trace := trace two_files @ [SerialPrintln ''Invalid file number.'']\<rparr>) \<and>
   trim ''delete abc'' = ''delete '' @ ''abc'' \<and>
   handleSerialCommand two_files None ''delete abc'' =
     Some (two_files\<lparr>trace := trace two_files @ [SerialPrintln ''Invalid file number.'']\<rparr>) \<and>
   toInt ''abc'' = 0"
  using invalid_index_no_change [of "''send 7''" "''7''" two_files None]
    invalid_index_no_change [of "''delete abc''" "''abc''" two_files None]
  by (simp add: trim_ev toInt_ev two_files_fields isdigit_def)

text \<open>
  The claim as stated fails on an argument that is not a number but begins with one:
  \<open>send 1x\<close> sends the first file of the snapshot.
\<close>

theorem send_trailing_text_counterexample:
  "\<not> numeric_argument ''1x'' \<and>
   handleSerialCommand two_files None ''send 1x'' = Some (sendFileOverSerial two_files ''/a.txt'') \<and>
   trace (sendFileOverSerial two_files ''/a.txt'') =
     trace two_files @
     [SerialPrint ''Sending: '', SerialPrintln ''/a.txt'', SerialPrintln ''START_FILE_TRANSFER:/a.txt'',
      SerialWrite CHR ''x'', SerialPrintln (CHR 0x0A # ''END_FILE_TRANSFER'')] \<and>
   handleSerialCommand two_files None ''send 1x'' \<noteq>
     Some (two_files\<lparr>trace := trace two_files @ [SerialPrintln ''Invalid file number.'']\<rparr>)"
proof -
  have n: "\<not> numeric_argument ''1x''"
    by (simp add: numeric_argument_def isdigit_def)
  have d: "handleSerialCommand two_files None ''send 1x'' = Some (sendFileOverSerial two_files ''/a.txt'')"
    using dispatch_send [of "''send 1x''" "''1x''" two_files None]
    by (simp add: trim_ev toInt_ev two_files_fields)
  have t: "trace (sendFileOverSerial two_files ''/a.txt'') =
     trace two_files @
     [SerialPrint ''Sending: '', SerialPrintln ''/a.txt'', SerialPrintln ''START_FILE_TRANSFER:/a.txt'',
      SerialWrite CHR ''x'', SerialPrintln (CHR 0x0A # ''END_FILE_TRANSFER'')]"
    by (simp add: sendFileOverSerial_def Let_def spiffs_read_def path_name_def two_files_fields
        println_def print_def)
  have "sendFileOverSerial two_files ''/a.txt'' \<noteq>
        two_files\<lparr>trace := trace two_files @ [SerialPrintln ''Invalid file number.'']\<rparr>"
  proof
    assume "sendFileOverSerial two_files ''/a.txt'' =
        two_files\<lparr>trace := trace two_files @ [SerialPrintln ''Invalid file number.'']\<rparr>"
    then have "trace (sendFileOverSerial two_files ''/a.txt'') =
        trace two_files @ [SerialPrintln ''Invalid file number.'']" by simp
    with t show False by simp
  qed
  with n d t show ?thesis by simp
qed

section \<open>Delete all, then list\<close>



section \<open>The snapshot after delete all\<close>



section \<open>Facts about the session manager\<close>

lemma selectMode_frame:
  "selectMode s c = Some s' \<Longrightarrow> session_part s' = session_part s"
proof -
  have a: "session_part (x\<lparr>irMode := v\<rparr>) = session_part x" for x v
    by (simp add: session_part_def)
  assume "selectMode s c = Some s'"
  then show ?thesis
    by (auto simp add: selectMode_def Let_def a split: option.splits if_splits)
qed

lemma hbp_session_part: "session_part (handleButtonPress b s p) = session_part s"
proof (cases "accepted b s p")
  case True
  then show ?thesis by (simp add: session_part_def hbp_fields)
next
  case False
  then show ?thesis by (simp add: hbp_not_accepted)
qed

lemma handleSerialCommand_frame:
  "handleSerialCommand s c raw = Some s' \<Longrightarrow> session_part s' = session_part s"
proof -
  have a: "session_part (x\<lparr>logFileBase := v, preferences := w\<rparr>) = session_part x" for x v w
    by (simp add: session_part_def)
  assume "handleSerialCommand s c raw = Some s'"
  then show ?thesis
    by (auto simp add: handleSerialCommand_def Let_def a selectMode_frame
        split: if_splits)
qed

lemma grace_window_frame:
  "grace_window s ls c = Some s' \<Longrightarrow> session_part s' = session_part s"
  by (induction ls) (auto simp add: selectMode_frame split: if_splits)

lemma remove_session_file_frame [simp]:
  "session_part (remove_session_file s) = session_part s"
  by (simp add: remove_session_file_def Let_def)

lemma session_part_cleared [simp]:
  "session_part (s\<lparr>sessionActive := False, currentFileName := []\<rparr>) = (False, [])"
  by (simp add: session_part_def)

lemma end_session_clears:
  "end_session s e = Some s' \<Longrightarrow> session_part s' = (False, [])"
  by (auto simp add: end_session_def Let_def split: option.splits if_splits
      dest!: grace_window_frame selectMode_frame)

lemma start_session_fields:
  "sessionActive (start_session s t input)"
  "currentFileName (start_session s t input) =
     (if charAt input 0 \<noteq> CHR ''/'' then ''/'' @ input else input) @ ''.txt''"
  "timestampStart (start_session s t input) = t"
  "lastClipTime (start_session s t input) = 0"
  "currentTrackIndex (start_session s t input) = 1"
  "storage (start_session s t input) = storage s"
  "awaitingSessionName (start_session s t input) = False"
  by (simp_all add: start_session_def Let_def println_def)

lemma inv_of_part: "session_part s' = session_part s \<Longrightarrow> session_inv s' = session_inv s"
  by (simp add: session_part_def session_inv_def)

lemma inv_cleared: "session_part s' = (False, []) \<Longrightarrow> session_inv s'"
  by (simp add: session_part_def session_inv_def)

lemma prompt_frame [simp]:
  "session_part (prompt_for_name s) = session_part s" "storage (prompt_for_name s) = storage s"
  by (simp_all add: prompt_for_name_def session_part_def println_def)

lemma loop_start:
  "irMode s \<Longrightarrow> \<not> sessionActive s \<Longrightarrow> serial_line e = Some raw \<Longrightarrow>
   \<not> equalsIgnoreCase (trim raw) ''menu'' \<Longrightarrow>
   loop b s e = Some (start_session (prompt_for_name s) (now e) (trim raw))"
  by (simp add: loop_def Let_def)

lemma loop_cases:
  assumes l: "loop b s e = Some s'"
  shows "session_part s' = session_part s \<or> session_part s' = (False, []) \<or>
         (irMode s \<and> \<not> sessionActive s \<and>
          (\<exists>raw. serial_line e = Some raw \<and> \<not> equalsIgnoreCase (trim raw) ''menu'' \<and>
                 s' = start_session (prompt_for_name s) (now e) (trim raw)))"
proof (cases "irMode s")
  case False
  show ?thesis
  proof (cases "serial_line e")
    case None
    with False l show ?thesis by (simp add: loop_def)
  next
    case (Some raw)
    with False l have "handleSerialCommand s (menu_choice e) raw = Some s'"
      by (simp add: loop_def)
    then show ?thesis by (simp add: handleSerialCommand_frame)
  qed
next
  case True
  show ?thesis
  proof (cases "sessionActive s")
    case active: True
    show ?thesis
    proof (cases "ir_frame e")
      case None
      with True active l show ?thesis by (simp add: loop_def)
    next
      case (Some p)
      show ?thesis
      proof (cases "command p = 33")
        case True
        with \<open>irMode s\<close> active Some l have "end_session s e = Some s'"
          by (simp add: loop_def)
        then show ?thesis by (simp add: end_session_clears)
      next
        case False
        with \<open>irMode s\<close> active Some l have "s' = handleButtonPress b s p"
          by (simp add: loop_def)
        then show ?thesis by (simp add: hbp_session_part)
      qed
    qed
  next
    case idle: False
    show ?thesis
    proof (cases "serial_line e")
      case None
      with True idle l have "s' = prompt_for_name s" by (simp add: loop_def Let_def)
      then show ?thesis by simp
    next
      case (Some raw)
      show ?thesis
      proof (cases "equalsIgnoreCase (trim raw) ''menu''")
        case True
        with \<open>irMode s\<close> idle Some l
        have "selectMode ((prompt_for_name s)\<lparr>awaitingSessionName := False\<rparr>) (menu_choice e) = Some s'"
          by (simp add: loop_def Let_def)
        then have "session_part s' = session_part ((prompt_for_name s)\<lparr>awaitingSessionName := False\<rparr>)"
          by (rule selectMode_frame)
        also have "\<dots> = session_part (prompt_for_name s)" by (simp add: session_part_def)
        finally show ?thesis by simp
      next
        case False
        with \<open>irMode s\<close> idle Some l
        have "s' = start_session (prompt_for_name s) (now e) (trim raw)"
          by (simp add: loop_def Let_def)
        with \<open>irMode s\<close> idle Some False show ?thesis by blast
      qed
    qed
  qed
qed

lemma loop_inv: "session_inv s \<Longrightarrow> loop b s e = Some s' \<Longrightarrow> session_inv s'"
proof -
  assume i: "session_inv s" and l: "loop b s e = Some s'"
  have st: "session_inv (start_session x t n)" for x t n
    by (simp add: session_inv_def start_session_fields)
  from loop_cases [OF l] consider
      (same) "session_part s' = session_part s"
    | (cleared) "session_part s' = (False, [])"
    | (started) x t n where "s' = start_session x t n"
    by blast
  then show ?thesis
  proof cases
    case same
    then show ?thesis using i inv_of_part by blast
  next
    case cleared
    then show ?thesis by (rule inv_cleared)
  next
    case started
    then show ?thesis by (simp only: st)
  qed
qed

lemma setup_inv: "setup_sketch (power_on fs prefs) True c = Some s \<Longrightarrow> session_inv s"
proof -
  assume "setup_sketch (power_on fs prefs) True c = Some s"
  then have "session_part s = session_part (power_on fs prefs)"
    by (auto simp add: setup_sketch_def Let_def session_part_def [of "_\<lparr>logFileBase := _\<rparr>"]
         dest!: selectMode_frame split: option.splits) (simp_all add: session_part_def println_def)
  then show ?thesis
    by (simp add: session_part_def session_inv_def power_on_def)
qed


lemma reachable_inv: "reachable b s \<Longrightarrow> session_inv s"
  by (induction rule: reachable.induct) (auto intro: setup_inv loop_inv)

section \<open>Active session and named file\<close>

text \<open>
  C3. In every state the sketch can reach from \<open>setup\<close> by passes of \<open>loop\<close>, a session is
  active if and only if \<open>currentFileName\<close> is not empty; so a pass of \<open>loop\<close> changes
  \<open>sessionActive\<close> exactly when it changes whether a file is named.
\<close>

theorem session_active_iff_file_named:
  "reachable b s \<Longrightarrow>
   (sessionActive s \<longleftrightarrow> currentFileName s \<noteq> []) \<and>
   (\<forall>e s'. loop b s e = Some s' \<longrightarrow>
      (sessionActive s' \<longleftrightarrow> currentFileName s' \<noteq> []) \<and>
      ((sessionActive s' \<noteq> sessionActive s) \<longleftrightarrow>
       ((currentFileName s' = []) \<noteq> (currentFileName s = []))))"
proof -
  assume r: "reachable b s"
  then have i: "session_inv s" by (rule reachable_inv)
  have "\<forall>e s'. loop b s e = Some s' \<longrightarrow>
      (sessionActive s' \<longleftrightarrow> currentFileName s' \<noteq> []) \<and>
      ((sessionActive s' \<noteq> sessionActive s) \<longleftrightarrow>
       ((currentFileName s' = []) \<noteq> (currentFileName s = [])))"
  proof (intro allI impI)
    fix e s'
    assume "loop b s e = Some s'"
    then have "session_inv s'" using i by (rule loop_inv [rotated])
    with i show "(sessionActive s' \<longleftrightarrow> currentFileName s' \<noteq> []) \<and>
      ((sessionActive s' \<noteq> sessionActive s) \<longleftrightarrow>
       ((currentFileName s' = []) \<noteq> (currentFileName s = [])))"
      by (auto simp add: session_inv_def)
  qed
  with i show ?thesis by (simp add: session_inv_def)
qed

lemma boot_ir:
  "\<exists>s0. setup_sketch (power_on [] Map.empty) True (Some CHR ''1'') = Some s0 \<and>
        irMode s0 \<and> \<not> sessionActive s0 \<and> currentFileName s0 = []"
  by (simp add: setup_sketch_def selectMode_def Let_def println_def printlns_def power_on_def)

lemma line_poll_fields:
  "serial_line (line_poll l t) = Some l" "now (line_poll l t) = t" "ir_frame (line_poll l t) = None"
  by (simp_all add: line_poll_def)

lemma not_menu_ev: "\<not> equalsIgnoreCase ''a'' ''menu''" "\<not> equalsIgnoreCase [] ''menu''"
  "trim ''a'' = ''a''" "trim [] = []"
  by (simp_all add: equalsIgnoreCase_def trim_def isspace_def)

theorem session_active_iff_file_named_witness:
  "\<exists>s0 s1. setup_sketch (power_on [] Map.empty) True (Some CHR ''1'') = Some s0 \<and>
     \<not> sessionActive s0 \<and> currentFileName s0 = [] \<and>
     loop by_heuristic s0 (line_poll ''a'' 0) = Some s1 \<and>
     reachable by_heuristic s1 \<and> sessionActive s1 \<and> currentFileName s1 = ''/a.txt''"
proof -
  obtain s0 where b: "setup_sketch (power_on [] Map.empty) True (Some CHR ''1'') = Some s0"
    and f: "irMode s0" "\<not> sessionActive s0" "currentFileName s0 = []"
    using boot_ir by blast
  define s1 where "s1 = start_session (prompt_for_name s0) 0 ''a''"
  have l: "loop by_heuristic s0 (line_poll ''a'' 0) = Some s1"
    using loop_start [OF f(1) f(2), of "line_poll ''a'' 0" "''a''" by_heuristic]
    by (simp add: line_poll_fields not_menu_ev s1_def)
  have r0: "reachable by_heuristic s0" using b by (rule reachable.boot)
  have r1: "reachable by_heuristic s1" using r0 l by (rule reachable.step)
  have n: "currentFileName s1 = ''/a.txt''"
    by (simp add: s1_def start_session_fields charAt_def)
  from session_active_iff_file_named [OF r1] n have "sessionActive s1" by simp
  with b f l r1 n show ?thesis by blast
qed

section \<open>Starting a session\<close>

text \<open>
  C6, as amended. While no session is active in IR mode, every line on the control channel
  other than \<open>menu\<close> (trimmed, in any case of letters) starts a session, the empty line
  included: \<open>/\<close> is put in front of a name that does not begin with it, \<open>currentFileName\<close>
  is that name plus \<open>.txt\<close>, \<open>timestampStart\<close> is the reading of \<open>millis()\<close>, \<open>lastClipTime\<close>
  is 0 and \<open>currentTrackIndex\<close> is 1; the store is not touched. Nothing else takes
  \<open>sessionActive\<close> from false to true.
\<close>

theorem session_start:
  "(irMode s \<and> \<not> sessionActive s \<and> serial_line e = Some raw \<and>
    \<not> equalsIgnoreCase (trim raw) ''menu'' \<longrightarrow>
      loop b s e = Some (start_session (prompt_for_name s) (now e) (trim raw)) \<and>
      sessionActive (start_session (prompt_for_name s) (now e) (trim raw)) \<and>
      currentFileName (start_session (prompt_for_name s) (now e) (trim raw)) =
        (if charAt (trim raw) 0 \<noteq> CHR ''/'' then ''/'' @ trim raw else trim raw) @ ''.txt'' \<and>
      timestampStart (start_session (prompt_for_name s) (now e) (trim raw)) = now e \<and>
      lastClipTime (start_session (prompt_for_name s) (now e) (trim raw)) = 0 \<and>
      currentTrackIndex (start_session (prompt_for_name s) (now e) (trim raw)) = 1 \<and>
      storage (start_session (prompt_for_name s) (now e) (trim raw)) = storage s) \<and>
   (\<not> sessionActive s \<and> loop b s e = Some s' \<and> sessionActive s' \<longrightarrow>
      irMode s \<and>
      (\<exists>line. serial_line e = Some line \<and> \<not> equalsIgnoreCase (trim line) ''menu'' \<and>
              s' = start_session (prompt_for_name s) (now e) (trim line)))"
proof (intro conjI impI)
  assume h: "irMode s \<and> \<not> sessionActive s \<and> serial_line e = Some raw \<and>
    \<not> equalsIgnoreCase (trim raw) ''menu''"
  then show "loop b s e = Some (start_session (prompt_for_name s) (now e) (trim raw))"
    by (simp add: loop_start)
next
  assume h: "\<not> sessionActive s \<and> loop b s e = Some s' \<and> sessionActive s'"
  then have l: "loop b s e = Some s'" and d: "session_part s' \<noteq> session_part s"
    "session_part s' \<noteq> (False, [])"
    by (auto simp add: session_part_def)
  from loop_cases [OF l] d
  have c: "irMode s \<and> \<not> sessionActive s \<and>
          (\<exists>raw. serial_line e = Some raw \<and> \<not> equalsIgnoreCase (trim raw) ''menu'' \<and>
                 s' = start_session (prompt_for_name s) (now e) (trim raw))"
    by blast
  then show "irMode s" by simp
  from c show "\<exists>line. serial_line e = Some line \<and> \<not> equalsIgnoreCase (trim line) ''menu'' \<and>
              s' = start_session (prompt_for_name s) (now e) (trim line)" by simp
qed (simp_all add: start_session_fields)

lemma idle_fields: "irMode idle" "\<not> sessionActive idle" "storage idle = []"
  by (simp_all add: idle_def power_on_def)

theorem session_start_witness:
  "irMode idle \<and> \<not> sessionActive idle \<and> serial_line (line_poll ''a'' 7) = Some ''a'' \<and>
   \<not> equalsIgnoreCase (trim ''a'') ''menu'' \<and>
   loop by_heuristic idle (line_poll ''a'' 7) =
     Some (start_session (prompt_for_name idle) 7 ''a'') \<and>
   sessionActive (start_session (prompt_for_name idle) 7 ''a'') \<and>
   currentFileName (start_session (prompt_for_name idle) 7 ''a'') = ''/a.txt'' \<and>
   timestampStart (start_session (prompt_for_name idle) 7 ''a'') = 7 \<and>
   lastClipTime (start_session (prompt_for_name idle) 7 ''a'') = 0 \<and>
   currentTrackIndex (start_session (prompt_for_name idle) 7 ''a'') = 1 \<and>
   storage (start_session (prompt_for_name idle) 7 ''a'') = []"
  using session_start [of idle "line_poll ''a'' 7" "''a''" by_heuristic
      "start_session (prompt_for_name idle) 7 ''a''"]
  by (simp add: idle_fields line_poll_fields not_menu_ev charAt_def)

text \<open>
  The claim as stated asks for a non-empty name; the empty line starts the session
  \<open>/.txt\<close>.
\<close>

theorem empty_name_starts_session_counterexample:
  "trim [] = [] \<and> irMode idle \<and> \<not> sessionActive idle \<and>
   map_option session_part (loop by_heuristic idle (line_poll [] 0)) = Some (True, ''/.txt'') \<and>
   map_option storage (loop by_heuristic idle (line_poll [] 0)) = Some []"
  using loop_start [of idle "line_poll [] 0" "[]" by_heuristic]
  by (simp add: idle_fields line_poll_fields not_menu_ev session_part_def start_session_fields
      charAt_def)

end
